theory Spec2Isabelle
  imports Main "HOL-Library.Word"
begin

section \<open>Data model\<close>

text \<open>
  The repository has two source files: the route handler \<^verbatim>\<open>src/app/api/transcribe/route.ts\<close>
  (the Transcription Gateway) and the React component of \<^verbatim>\<open>src/unnamed/part_000\<close>
  (the Recorder/Session Manager). Both are embedded below, handler by handler.
  Asynchronous handlers are split where they await the network: the part that runs
  before the request is sent, and the part that runs when the request settles.
\<close>

type_synonym byte = "8 word"

text \<open>A DOM \<^verbatim>\<open>Blob\<close>: its bytes and its declared type; \<^verbatim>\<open>File\<close> extends it with a name.\<close>

record blob =
  bytes :: "byte list"
  type :: string

record file_obj = blob +
  name :: string

definition size_of :: "'a blob_scheme \<Rightarrow> nat" where
  "size_of b = length (bytes b)"

text \<open>The interface \<^verbatim>\<open>AudioRecording\<close>. The timestamp is in milliseconds since the epoch.\<close>

record recording =
  id_rec :: string
  url :: string
  blob :: blob
  timestamp :: nat
  transcription :: "string option"

text \<open>An \<^verbatim>\<open>HTMLAudioElement\<close>, as far as the component uses it.\<close>

record audio_element =
  src :: string
  paused :: bool

text \<open>
  The component's state: the values of its \<^verbatim>\<open>useState\<close> hooks and of its refs.
  \<^verbatim>\<open>audioRefs\<close> is a JavaScript \<^verbatim>\<open>Map\<close>, kept as an association list with one entry for
  each key; \<^verbatim>\<open>textarea\<close> is the value of the text area behind \<^verbatim>\<open>textareaRef\<close>, \<open>None\<close>
  while the ref is null.
\<close>

record session =
  isRecording :: bool
  hasPermission :: "bool option"
  recordings :: "recording list"
  isProcessing :: bool
  playingId :: "string option"
  isTranscribing :: bool
  transcriptionError :: "string option"
  mediaRecorder :: bool
  audioChunks :: "blob list"
  audioRefs :: "(string \<times> audio_element) list"
  textarea :: "string option"

definition initial :: session where
  "initial = \<lparr>isRecording = False, hasPermission = None, recordings = [],
     isProcessing = False, playingId = None, isTranscribing = False,
     transcriptionError = None, mediaRecorder = False, audioChunks = [],
     audioRefs = [], textarea = Some ''''\<rparr>"

subsection \<open>Numbers as decimal strings\<close>

text \<open>\<^verbatim>\<open>Number.prototype.toString\<close> and template literals, on a non-negative integer.\<close>

definition digit_char :: "nat \<Rightarrow> char" where
  "digit_char d = ''0123456789'' ! d"

fun string_of_nat :: "nat \<Rightarrow> string" where
  "string_of_nat n =
     (if n < 10 then [digit_char n] else string_of_nat (n div 10) @ [digit_char (n mod 10)])"

declare string_of_nat.simps [simp del]

definition digit_val :: "char \<Rightarrow> nat" where
  "digit_val c = of_char c - 48"

definition nat_of_string :: "string \<Rightarrow> nat" where
  "nat_of_string cs = foldl (\<lambda>acc c. 10 * acc + digit_val c) 0 cs"

section \<open>The Transcription Gateway: \<^verbatim>\<open>POST\<close>\<close>

text \<open>
  A multipart form is a list of named entries, each a string or a file;
  \<^verbatim>\<open>formData.get\<close> returns the first entry of that name, or null.
\<close>

datatype form_value = FormString string | FormFile file_obj

type_synonym form_data = "(string \<times> form_value) list"

definition formData_get :: "form_data \<Rightarrow> string \<Rightarrow> form_value option" where
  "formData_get fd k = map_of fd k"

text \<open>
  A request, as the handler reads it: \<^verbatim>\<open>request.formData()\<close> gives the form, or rejects
  with an error (\<open>Inl\<close> its message) when the body is not form data.
\<close>

record request =
  formData :: "string + form_data"

text \<open>
  What \<^verbatim>\<open>NextResponse.json(data, {status})\<close> sends. Of the JSON object only the \<^verbatim>\<open>error\<close>
  message, or the \<^verbatim>\<open>text\<close> sent with \<^verbatim>\<open>success: true\<close>, is kept: the other fields
  (\<^verbatim>\<open>details\<close>, \<^verbatim>\<open>type\<close>, \<^verbatim>\<open>debug\<close>) repeat the request and the error for diagnosis.
\<close>

datatype json_data = ErrorData string | SuccessData string

record next_response =
  init_status :: nat
  data :: json_data

definition failed :: "string \<Rightarrow> next_response" where
  "failed message = \<lparr>init_status = 500, data = ErrorData (''Transcription failed: '' @ message)\<rparr>"

text \<open>
  The handler. The parameter \<open>transcribe\<close> is the function of that name that the
  handler imports from the package \<^verbatim>\<open>ai\<close> and calls with the model \<^verbatim>\<open>whisper-1\<close>: given
  the audio bytes it returns the text (\<open>Inr\<close>) or throws an error (\<open>Inl\<close> its message).
  It is the handler's only way to the external model. The second component of the
  result lists the payloads the handler passed to it, in order: it is empty exactly
  when the model was not invoked.

  A string entry named \<^verbatim>\<open>audio\<close> passes the cast \<^verbatim>\<open>as File\<close>; when it is not empty it
  has no \<^verbatim>\<open>size\<close> (the comparison with the limit is false) and no \<^verbatim>\<open>arrayBuffer\<close>
  method, so the call throws a TypeError, with the message of the V8 engine.
\<close>

definition POST ::
  "(byte list \<Rightarrow> string + string) \<Rightarrow> request \<Rightarrow> next_response \<times> byte list list" where
  "POST transcribe request =
     (case formData request of
        Inl message \<Rightarrow> (failed message, [])
      | Inr fd \<Rightarrow>
          (case formData_get fd ''audio'' of
             None \<Rightarrow>
               (\<lparr>init_status = 400, data = ErrorData ''No audio file provided''\<rparr>, [])
           | Some (FormString s) \<Rightarrow>
               if s = ''''
               then (\<lparr>init_status = 400, data = ErrorData ''No audio file provided''\<rparr>, [])
               else (failed ''audioFile.arrayBuffer is not a function'', [])
           | Some (FormFile audioFile) \<Rightarrow>
               if size_of audioFile > 25 * 1024 * 1024
               then (\<lparr>init_status = 400, data = ErrorData ''File size exceeds 25MB limit''\<rparr>, [])
               else
                 (let audioData = bytes audioFile in
                  case transcribe audioData of
                    Inl message \<Rightarrow> (failed message, [audioData])
                  | Inr result_text \<Rightarrow>
                      (\<lparr>init_status = 200, data = SuccessData result_text\<rparr>, [audioData]))))"

text \<open>
  Not in this repository: the function \<^verbatim>\<open>experimental_transcribe\<close> of the package \<^verbatim>\<open>ai\<close>
  itself. As the package has it, the function passes the audio to the model, passes
  on an error of the model, and throws \<^verbatim>\<open>NoTranscriptGeneratedError\<close>, whose message is
  \<^verbatim>\<open>No transcript generated.\<close>, when the text that the model returns is empty. Here
  \<open>model\<close> is the external model: the text it recognizes, or its error.
\<close>

definition experimental_transcribe ::
  "(byte list \<Rightarrow> string + string) \<Rightarrow> byte list \<Rightarrow> string + string" where
  "experimental_transcribe model audio =
     (case model audio of
        Inl message \<Rightarrow> Inl message
      | Inr result_text \<Rightarrow>
          if result_text = '''' then Inl ''No transcript generated.'' else Inr result_text)"

text \<open>
  A request lacks the field \<^verbatim>\<open>audio\<close> when its body is not form data at all, or when
  its form has no entry of that name.
\<close>

definition lacks_audio :: "request \<Rightarrow> bool" where
  "lacks_audio request =
     (case formData request of
        Inl message \<Rightarrow> True
      | Inr fd \<Rightarrow> ''audio'' \<notin> fst ` set fd)"

section \<open>The Session Manager\<close>

subsection \<open>The response seen by \<^verbatim>\<open>fetch\<close>\<close>

text \<open>
  A \<^verbatim>\<open>Response\<close>: its status, what \<^verbatim>\<open>response.text()\<close> gives and what reading
  \<^verbatim>\<open>(await response.json()).text\<close> gives. \<open>Inl\<close> is the message of the error thrown by
  the read (for JSON: the body is not JSON, or it is the value null). \<open>Inr None\<close> is a
  JSON value with no \<^verbatim>\<open>text\<close> property. A \<^verbatim>\<open>text\<close> property is a string, as the
  gateway sends it.
\<close>

record response =
  status :: nat
  body_text :: "string + string"
  body_json :: "string + string option"

definition ok :: "response \<Rightarrow> bool" where
  "ok r = (200 \<le> status r \<and> status r \<le> 299)"

text \<open>
  How a reply of the gateway reaches the component. \<open>raw\<close> is the JSON text of the body,
  whose rendering is the framework's.
\<close>

definition deliver :: "string \<Rightarrow> next_response \<Rightarrow> response" where
  "deliver raw r =
     \<lparr>status = init_status r, body_text = Inr raw,
      body_json = Inr (case data r of SuccessData t \<Rightarrow> Some t | ErrorData e \<Rightarrow> None)\<rparr>"

subsection \<open>\<^verbatim>\<open>transcribeAudio\<close>\<close>

text \<open>The form that \<^verbatim>\<open>transcribeAudio\<close> posts to \<^verbatim>\<open>/api/transcribe\<close>.\<close>

definition upload :: "blob \<Rightarrow> string \<Rightarrow> request" where
  "upload b mimeType =
     \<lparr>formData = Inr [(''audio'',
        FormFile \<lparr>bytes = bytes b, type = mimeType, name = ''recording.webm''\<rparr>)]\<rparr>"

text \<open>Before the request is sent.\<close>

definition transcribeAudio_begin :: "session \<Rightarrow> session" where
  "transcribeAudio_begin s = s\<lparr>isTranscribing := True, transcriptionError := None\<rparr>"

text \<open>
  The rest of the \<^verbatim>\<open>try\<close> block, from the settled \<^verbatim>\<open>fetch\<close> (\<open>Inl\<close>: it rejected, with
  that message) to the test of \<^verbatim>\<open>result.text\<close>: \<open>Inr\<close> the text when the block reaches
  its first branch, \<open>Inl\<close> the message of the error it throws otherwise. An empty string
  is falsy in JavaScript.
\<close>

definition received :: "string + response \<Rightarrow> string + string" where
  "received fetched =
     (case fetched of
        Inl message \<Rightarrow> Inl message
      | Inr response \<Rightarrow>
          if \<not> ok response then
            (case body_text response of
               Inl message \<Rightarrow> Inl message
             | Inr errorText \<Rightarrow>
                 Inl (''API request failed: '' @ string_of_nat (status response)
                        @ '' - '' @ errorText))
          else
            (case body_json response of
               Inl message \<Rightarrow> Inl message
             | Inr None \<Rightarrow> Inl ''No transcription text received''
             | Inr (Some result_text) \<Rightarrow>
                 if result_text \<noteq> '''' then Inr result_text
                 else Inl ''No transcription text received''))"

text \<open>When the request has settled: the branches of \<^verbatim>\<open>try\<close>, \<^verbatim>\<open>catch\<close> and \<^verbatim>\<open>finally\<close>.\<close>

definition transcribeAudio_settle :: "string + response \<Rightarrow> string \<Rightarrow> session \<Rightarrow> session" where
  "transcribeAudio_settle fetched recordingId s =
     (case received fetched of
        Inr result_text \<Rightarrow>
          s\<lparr>recordings :=
               map (\<lambda>recording.
                      if id_rec recording = recordingId
                      then recording\<lparr>transcription := Some result_text\<rparr>
                      else recording) (recordings s),
            textarea :=
               (case textarea s of
                  None \<Rightarrow> None
                | Some currentText \<Rightarrow>
                    Some (if currentText \<noteq> '''' then currentText @ '' '' @ result_text
                          else result_text)),
            isTranscribing := False\<rparr>
      | Inl message \<Rightarrow> s\<lparr>transcriptionError := Some message, isTranscribing := False\<rparr>)"

text \<open>A call that no other handler interrupts.\<close>

definition transcribeAudio :: "string + response \<Rightarrow> string \<Rightarrow> session \<Rightarrow> session" where
  "transcribeAudio fetched recordingId s =
     transcribeAudio_settle fetched recordingId (transcribeAudio_begin s)"

subsection \<open>Recording\<close>

text \<open>
  \<^verbatim>\<open>startRecording\<close>: \<open>granted\<close> says whether \<^verbatim>\<open>getUserMedia\<close> resolved (creating and
  starting the recorder is taken not to throw), \<open>opus\<close> what
  \<^verbatim>\<open>MediaRecorder.isTypeSupported\<close> answered. The mime type is fixed here and kept by
  the \<^verbatim>\<open>onstop\<close> handler of the recorder.
\<close>

definition mimeType_of :: "bool \<Rightarrow> string" where
  "mimeType_of opus = (if opus then ''audio/webm;codecs=opus'' else ''audio/webm'')"

definition startRecording :: "bool \<Rightarrow> session \<Rightarrow> session" where
  "startRecording granted s =
     (if granted
      then s\<lparr>transcriptionError := None, hasPermission := Some True, audioChunks := [],
             mediaRecorder := True, isRecording := True\<rparr>
      else s\<lparr>transcriptionError := None, hasPermission := Some False\<rparr>)"

definition ondataavailable :: "blob \<Rightarrow> session \<Rightarrow> session" where
  "ondataavailable event_data s =
     (if size_of event_data > 0 then s\<lparr>audioChunks := audioChunks s @ [event_data]\<rparr> else s)"

definition stopRecording :: "session \<Rightarrow> session" where
  "stopRecording s =
     (if mediaRecorder s \<and> isRecording s then s\<lparr>isRecording := False\<rparr> else s)"

text \<open>
  \<^verbatim>\<open>onstop\<close>, up to the point where \<^verbatim>\<open>transcribeAudio\<close> has sent its request. \<open>now\<close> is
  what \<^verbatim>\<open>Date.now()\<close> returns, \<open>date\<close> the time of \<^verbatim>\<open>new Date()\<close>, \<open>objectURL\<close> what
  \<^verbatim>\<open>URL.createObjectURL\<close> returns. The result is the new state and the new recording.
\<close>

definition onstop :: "string \<Rightarrow> nat \<Rightarrow> nat \<Rightarrow> string \<Rightarrow> session \<Rightarrow> session \<times> recording" where
  "onstop mimeType now date objectURL s =
     (let audioBlob = \<lparr>bytes = concat (map bytes (audioChunks s)), type = mimeType\<rparr>;
          newRecording = \<lparr>id_rec = string_of_nat now, url = objectURL, blob = audioBlob,
                          timestamp = date, transcription = None\<rparr>
      in (transcribeAudio_begin
            (s\<lparr>recordings := recordings s @ [newRecording], isProcessing := False\<rparr>),
          newRecording))"

subsection \<open>Retry\<close>

text \<open>
  \<^verbatim>\<open>retryTranscription\<close>: the arguments it passes to \<^verbatim>\<open>transcribeAudio\<close> (blob, mime type,
  recording id) and the state once the request is sent.
\<close>

definition retryTranscription :: "recording \<Rightarrow> session \<Rightarrow> session \<times> (blob \<times> string \<times> string)" where
  "retryTranscription r s =
     (let mimeType = (if type (blob r) \<noteq> '''' then type (blob r) else ''audio/webm'')
      in (transcribeAudio_begin s, (blob r, mimeType, id_rec r)))"

text \<open>The recording the Retry button picks: \<^verbatim>\<open>recordings[recordings.length - 1]\<close>.\<close>

definition lastRecording :: "session \<Rightarrow> recording option" where
  "lastRecording s = (if recordings s = [] then None else Some (last (recordings s)))"

text \<open>The click handler of the Retry button; \<open>None\<close> when it calls nothing.\<close>

definition retry_onClick :: "session \<Rightarrow> session \<times> (blob \<times> string \<times> string) option" where
  "retry_onClick s =
     (case lastRecording s of
        None \<Rightarrow> (s, None)
      | Some r \<Rightarrow> (let (s', call) = retryTranscription r s in (s', Some call)))"

subsection \<open>Playback\<close>

definition set_paused :: "string \<Rightarrow> bool \<Rightarrow> (string \<times> audio_element) list \<Rightarrow> (string \<times> audio_element) list" where
  "set_paused k b refs = map (\<lambda>(k', el). if k' = k then (k', el\<lparr>paused := b\<rparr>) else (k', el)) refs"

text \<open>
  \<^verbatim>\<open>togglePlayback\<close>. \<^verbatim>\<open>pause()\<close> and \<^verbatim>\<open>play()\<close> act on the element registered under the
  key; \<^verbatim>\<open>if (playingId)\<close> is false for null and for the empty string.
\<close>

definition togglePlayback :: "string \<Rightarrow> session \<Rightarrow> session" where
  "togglePlayback recordingId s =
     (case map_of (audioRefs s) recordingId of
        None \<Rightarrow> s
      | Some audioElement \<Rightarrow>
          if playingId s = Some recordingId
          then s\<lparr>audioRefs := set_paused recordingId True (audioRefs s), playingId := None\<rparr>
          else
            (let refs =
               (case playingId s of
                  None \<Rightarrow> audioRefs s
                | Some p \<Rightarrow>
                    if p \<noteq> '''' then
                      (case map_of (audioRefs s) p of
                         None \<Rightarrow> audioRefs s
                       | Some currentAudio \<Rightarrow> set_paused p True (audioRefs s))
                    else audioRefs s)
             in s\<lparr>audioRefs := set_paused recordingId False refs,
                   playingId := Some recordingId\<rparr>))"

text \<open>The \<^verbatim>\<open>onEnded\<close> handler of every audio element.\<close>

definition onEnded :: "session \<Rightarrow> session" where
  "onEnded s = s\<lparr>playingId := None\<rparr>"

text \<open>The ref callback of an audio element: it registers the element, or removes it.\<close>

definition ref_callback :: "recording \<Rightarrow> audio_element option \<Rightarrow> session \<Rightarrow> session" where
  "ref_callback r el s =
     (case el of
        Some e \<Rightarrow>
          s\<lparr>audioRefs :=
              (if id_rec r \<in> fst ` set (audioRefs s)
               then map (\<lambda>(k, old). if k = id_rec r then (k, e) else (k, old)) (audioRefs s)
               else audioRefs s @ [(id_rec r, e)])\<rparr>
      | None \<Rightarrow> s\<lparr>audioRefs := filter (\<lambda>(k, old). k \<noteq> id_rec r) (audioRefs s)\<rparr>)"

subsection \<open>What the component renders\<close>

text \<open>
  The Retry button is rendered while \<^verbatim>\<open>transcriptionError\<close> is truthy, the Stop button
  while \<^verbatim>\<open>isRecording\<close>; the microphone button is disabled while \<^verbatim>\<open>isTranscribing\<close>.
\<close>

definition retry_visible :: "session \<Rightarrow> bool" where
  "retry_visible s =
     (case transcriptionError s of None \<Rightarrow> False | Some message \<Rightarrow> message \<noteq> '''')"

definition handleMicClick :: "bool \<Rightarrow> session \<Rightarrow> session" where
  "handleMicClick granted s = (if isRecording s then stopRecording s else startRecording granted s)"

section \<open>Runs of the component\<close>

text \<open>
  The events of a session: clicks, and the callbacks of the recorder and of the network.
  \<open>Stopped opus now date objectURL\<close> is the \<^verbatim>\<open>stop\<close> event of a recorder that was
  created with the mime type \<open>mimeType_of opus\<close>; \<open>Settled i fetched\<close> is the end of
  the request that \<^verbatim>\<open>transcribeAudio\<close> sent for the recording \<open>i\<close>.
\<close>

datatype event =
    MicClicked bool
  | StopClicked
  | DataAvailable blob
  | Stopped bool nat nat string
  | Settled string "string + response"
  | RetryClicked

text \<open>
  Beside the component's state a run keeps what the code does not store: the recording
  ids of the requests in flight, and the id of the recording whose transcription failed
  last.
\<close>

record world =
  sess :: session
  pending :: "string list"
  lastFailed :: "string option"

definition init_world :: world where
  "init_world = \<lparr>sess = initial, pending = [], lastFailed = None\<rparr>"

fun step :: "event \<Rightarrow> world \<Rightarrow> world" where
  "step (MicClicked granted) w =
     (if isTranscribing (sess w) then w else w\<lparr>sess := handleMicClick granted (sess w)\<rparr>)"
| "step StopClicked w =
     (if isRecording (sess w) then w\<lparr>sess := stopRecording (sess w)\<rparr> else w)"
| "step (DataAvailable event_data) w = w\<lparr>sess := ondataavailable event_data (sess w)\<rparr>"
| "step (Stopped opus now date objectURL) w =
     (let (s', r) = onstop (mimeType_of opus) now date objectURL (sess w)
      in w\<lparr>sess := s', pending := pending w @ [id_rec r]\<rparr>)"
| "step (Settled i fetched) w =
     (if i \<in> set (pending w)
      then w\<lparr>sess := transcribeAudio_settle fetched i (sess w),
             pending := remove1 i (pending w),
             lastFailed := (case received fetched of
                              Inl message \<Rightarrow> Some i
                            | Inr result_text \<Rightarrow> lastFailed w)\<rparr>
      else w)"
| "step RetryClicked w =
     (if retry_visible (sess w)
      then (case retry_onClick (sess w) of
              (s', None) \<Rightarrow> w\<lparr>sess := s'\<rparr>
            | (s', Some (b, mimeType, i)) \<Rightarrow> w\<lparr>sess := s', pending := pending w @ [i]\<rparr>)
      else w)"

fun run :: "event list \<Rightarrow> world \<Rightarrow> world" where
  "run [] w = w"
| "run (e # es) w = run es (step e w)"

text \<open>The readings of \<^verbatim>\<open>Date.now()\<close> at the \<^verbatim>\<open>stop\<close> events of a run, in order.\<close>

fun stop_times :: "event list \<Rightarrow> nat list" where
  "stop_times [] = []"
| "stop_times (Stopped opus now date objectURL # es) = now # stop_times es"
| "stop_times (e # es) = stop_times es"

text \<open>
  A run is serial when a transcription is started (by a \<^verbatim>\<open>stop\<close> event or by Retry) only
  while no request is in flight.
\<close>

fun starts_call :: "event \<Rightarrow> bool" where
  "starts_call (Stopped opus now date objectURL) = True"
| "starts_call RetryClicked = True"
| "starts_call e = False"

fun serial :: "event list \<Rightarrow> world \<Rightarrow> bool" where
  "serial [] w = True"
| "serial (e # es) w = ((if starts_call e then pending w = [] else True) \<and> serial es (step e w))"

subsection \<open>Runs of the player\<close>

text \<open>
  Beside the component's state the player keeps what the browser holds: the \<^verbatim>\<open>ended\<close>
  events that are queued and not yet dispatched, by the key of their element.
\<close>

record player =
  view :: session
  queued :: "string list"

text \<open>
  The browser, when the audio registered under \<open>k\<close> comes to its end: the element
  stops playing and an \<^verbatim>\<open>ended\<close> event is queued for it. Only an element that is
  playing comes to its end.
\<close>

definition reach_end :: "string \<Rightarrow> player \<Rightarrow> player" where
  "reach_end k p =
     (case map_of (audioRefs (view p)) k of
        None \<Rightarrow> p
      | Some el \<Rightarrow>
          if paused el then p
          else p\<lparr>view := (view p)\<lparr>audioRefs := set_paused k True (audioRefs (view p))\<rparr>,
                 queued := queued p @ [k]\<rparr>)"

text \<open>
  The browser dispatches the first queued \<^verbatim>\<open>ended\<close> event: the handler \<^verbatim>\<open>onEnded\<close> runs,
  whatever the state is by then.
\<close>

definition dispatch_ended :: "player \<Rightarrow> player" where
  "dispatch_ended p =
     (case queued p of
        [] \<Rightarrow> p
      | k # ks \<Rightarrow> p\<lparr>view := onEnded (view p), queued := ks\<rparr>)"

text \<open>
  The events of the player: a click on the play button of a recording, the end of an
  audio, and the dispatch of a queued \<^verbatim>\<open>ended\<close> event.
\<close>

datatype playback_event = Toggle string | ReachedEnd string | EndedDispatched

fun playback_step :: "playback_event \<Rightarrow> player \<Rightarrow> player" where
  "playback_step (Toggle k) p = p\<lparr>view := togglePlayback k (view p)\<rparr>"
| "playback_step (ReachedEnd k) p = reach_end k p"
| "playback_step EndedDispatched p = dispatch_ended p"

fun playback :: "playback_event list \<Rightarrow> player \<Rightarrow> player" where
  "playback [] p = p"
| "playback (e # es) p = playback es (playback_step e p)"

text \<open>
  A run is prompt when every \<^verbatim>\<open>ended\<close> event is dispatched before anything else
  happens.
\<close>

fun prompt :: "playback_event list \<Rightarrow> bool" where
  "prompt [] = True"
| "prompt (Toggle k # es) = prompt es"
| "prompt (ReachedEnd k # EndedDispatched # es) = prompt es"
| "prompt (e # es) = False"

text \<open>The keys of the audio elements that are playing.\<close>

definition playing_now :: "session \<Rightarrow> string list" where
  "playing_now s = map fst (filter (\<lambda>(k, el). \<not> paused el) (audioRefs s))"

text \<open>
  The state of a player that the component has built: one element for each key, no
  empty key (a key is the decimal string of a time), and every playing element is the
  one that \<^verbatim>\<open>playingId\<close> names.
\<close>

definition player_ok :: "session \<Rightarrow> bool" where
  "player_ok s =
     (distinct (map fst (audioRefs s)) \<and> '''' \<notin> set (map fst (audioRefs s)) \<and>
      list_all (\<lambda>k. playingId s = Some k) (playing_now s))"

section \<open>Example sessions\<close>

definition rec_a :: recording where
  "rec_a = \<lparr>id_rec = ''1700000000000'', url = ''blob:a'',
            blob = \<lparr>bytes = [1, 2, 3], type = ''audio/webm;codecs=opus''\<rparr>,
            timestamp = 1700000000000, transcription = None\<rparr>"

definition rec_b :: recording where
  "rec_b = \<lparr>id_rec = ''1700000005000'', url = ''blob:b'',
            blob = \<lparr>bytes = [4, 5], type = ''audio/webm''\<rparr>,
            timestamp = 1700000005001, transcription = None\<rparr>"

text \<open>Two recordings, both rendered with their audio elements, nothing playing.\<close>

definition two_recordings :: session where
  "two_recordings = initial\<lparr>recordings := [rec_a, rec_b], hasPermission := Some True,
     audioRefs := [(''1700000000000'', \<lparr>src = ''blob:a'', paused = True\<rparr>),
                   (''1700000005000'', \<lparr>src = ''blob:b'', paused = True\<rparr>)]\<rparr>"

text \<open>A reply with status 200 and the given \<^verbatim>\<open>text\<close>.\<close>

definition reply_ok :: "string \<Rightarrow> response" where
  "reply_ok t = \<lparr>status = 200, body_text = Inr ''{}'', body_json = Inr (Some t)\<rparr>"

definition raw_error :: string where
  \<open>raw_error = ''{"error":"Transcription failed: rate limit exceeded"}''\<close>

definition raw_no_transcript :: string where
  \<open>raw_no_transcript = ''{"error":"Transcription failed: No transcript generated."}''\<close>

text \<open>The external model hears silence: it returns the empty text.\<close>

definition silence :: "byte list \<Rightarrow> string + string" where
  "silence audio = Inr ''''"

text \<open>A request with a JSON body: \<^verbatim>\<open>request.formData()\<close> rejects.\<close>

definition json_request :: request where
  "json_request = \<lparr>formData = Inl ''Failed to parse body as FormData.''\<rparr>"

text \<open>A form whose only entry has another name.\<close>

definition misnamed_request :: request where
  "misnamed_request =
     \<lparr>formData = Inr [(''file'',
        FormFile \<lparr>bytes = [1, 2, 3], type = ''audio/webm'', name = ''recording.webm''\<rparr>)]\<rparr>"

text \<open>
  The first recording is played to its end; before its \<^verbatim>\<open>ended\<close> event is dispatched
  the second recording is started; then the event is dispatched, and the first
  recording is started again.
\<close>

definition late_ended :: "playback_event list" where
  "late_ended =
     [Toggle ''1700000000000'', ReachedEnd ''1700000000000'', Toggle ''1700000005000'',
      EndedDispatched, Toggle ''1700000000000'']"

text \<open>
  Two recordings whose \<^verbatim>\<open>stop\<close> events read the same time from the clock: the first is
  recorded and its transcription fails, the clock is set back, the second is recorded.
\<close>

definition clock_set_back :: "event list" where
  "clock_set_back =
     [MicClicked True, DataAvailable \<lparr>bytes = [1, 2, 3], type = ''audio/webm;codecs=opus''\<rparr>,
      StopClicked, Stopped True 1700000000000 1700000000000 ''blob:a'',
      Settled ''1700000000000'' (Inl ''Failed to fetch''),
      MicClicked True, DataAvailable \<lparr>bytes = [4, 5], type = ''audio/webm;codecs=opus''\<rparr>,
      StopClicked, Stopped True 1700000000000 1700000000010 ''blob:b'']"

text \<open>A recording whose transcription fails, nothing else in flight.\<close>

definition failing_run :: "event list" where
  "failing_run =
     [MicClicked True, StopClicked,
      DataAvailable \<lparr>bytes = [1, 2, 3], type = ''audio/webm;codecs=opus''\<rparr>,
      Stopped True 1700000000000 1700000000000 ''blob:a'',
      Settled ''1700000000000'' (Inl ''Failed to fetch'')]"

text \<open>
  Two transcriptions in flight at once. The first recording is stopped, and the
  microphone button is clicked again before the recorder has fired its \<^verbatim>\<open>stop\<close> event:
  at that moment \<^verbatim>\<open>isRecording\<close> and \<^verbatim>\<open>isTranscribing\<close> are both false, so the button
  is enabled and a second recording starts. The Stop button is never disabled, so the
  second recording is stopped while the first request is still in flight. The first
  request then fails and the second succeeds.
\<close>

definition overlapping_run :: "event list" where
  "overlapping_run =
     [MicClicked True, StopClicked, MicClicked True,
      DataAvailable \<lparr>bytes = [1, 2, 3], type = ''audio/webm;codecs=opus''\<rparr>,
      Stopped True 1700000000000 1700000000000 ''blob:a'',
      StopClicked,
      DataAvailable \<lparr>bytes = [4, 5], type = ''audio/webm;codecs=opus''\<rparr>,
      Stopped True 1700000005000 1700000005000 ''blob:b'',
      Settled ''1700000000000'' (Inl ''Failed to fetch''),
      Settled ''1700000005000'' (Inr (reply_ok ''hello''))]"

section \<open>Auxiliary notions\<close>

definition playing_keys :: "(string \<times> audio_element) list \<Rightarrow> string list" where
  "playing_keys refs = map fst (filter (\<lambda>(k, el). \<not> paused el) refs)"

definition last_id :: "session \<Rightarrow> string option" where
  "last_id s = map_option id_rec (lastRecording s)"

text \<open>
  What holds along a serial run: a request in flight is for the last recording of the
  list and the last error is unset; and while the last error is set, the last recording
  of the list is the one whose transcription failed last.
\<close>

definition serial_inv :: "world \<Rightarrow> bool" where
  "serial_inv w =
     ((pending w = [] \<or>
       (\<exists>i. pending w = [i] \<and> last_id (sess w) = Some i \<and> transcriptionError (sess w) = None)) \<and>
      (transcriptionError (sess w) \<noteq> None \<longrightarrow> last_id (sess w) = lastFailed w))"

section \<open>Decimal strings\<close>

lemma digit_val_digit_char: "d < 10 \<Longrightarrow> digit_val (digit_char d) = d"
proof -
  assume "d < 10"
  then have "d = 0 \<or> d = 1 \<or> d = 2 \<or> d = 3 \<or> d = 4 \<or> d = 5 \<or> d = 6
    \<or> d = 7 \<or> d = 8 \<or> d = 9" by arith
  then show ?thesis
    by (elim disjE) (simp_all add: digit_val_def digit_char_def)
qed

lemma nat_of_string_snoc: "nat_of_string (cs @ [c]) = 10 * nat_of_string cs + digit_val c"
  by (simp add: nat_of_string_def)

lemma nat_of_string_of_nat: "nat_of_string (string_of_nat n) = n"
proof (induction n rule: string_of_nat.induct)
  case (1 n)
  show ?case
  proof (cases "n < 10")
    case True
    then show ?thesis
      by (subst string_of_nat.simps) (simp add: nat_of_string_def digit_val_digit_char)
  next
    case False
    then have "nat_of_string (string_of_nat (n div 10)) = n div 10" using 1 by simp
    with False show ?thesis
      by (subst string_of_nat.simps) (simp add: nat_of_string_snoc digit_val_digit_char)
  qed
qed

lemma string_of_nat_inj: "string_of_nat m = string_of_nat n \<longleftrightarrow> m = n"
  by (metis nat_of_string_of_nat)

lemma string_of_nat_not_empty: "string_of_nat n \<noteq> ''''"
  by (subst string_of_nat.simps) simp

lemma string_of_500: "string_of_nat 500 = ''500''"
  by (simp add: string_of_nat.simps digit_char_def)

lemma string_of_time_a: "string_of_nat 1700000000000 = ''1700000000000''"
  by (simp add: string_of_nat.simps digit_char_def)

lemma string_of_time_b: "string_of_nat 1700000005000 = ''1700000005000''"
  by (simp add: string_of_nat.simps digit_char_def)

section \<open>The gateway\<close>

text \<open>
  C3. An uploaded audio file of more than 25 * 1024 * 1024 bytes is rejected: the
  gateway answers with status 400 and the error \<^verbatim>\<open>File size exceeds 25MB limit\<close> (its
  PayloadTooLarge rejection), and the external model is not invoked.
\<close>

theorem POST_rejects_oversized:
  "formData request = Inr fd \<Longrightarrow> formData_get fd ''audio'' = Some (FormFile f) \<Longrightarrow>
   size_of f > 25 * 1024 * 1024 \<Longrightarrow>
   POST transcribe request =
     (\<lparr>init_status = 400, data = ErrorData ''File size exceeds 25MB limit''\<rparr>, [])"
  by (simp add: POST_def)

theorem POST_rejects_oversized_witness:
  "size_of \<lparr>bytes = replicate 26214401 (0::byte), type = ''audio/webm'', name = ''recording.webm''\<rparr>
     > 25 * 1024 * 1024 \<and>
   POST (\<lambda>audio. Inr ''hello'')
     (upload \<lparr>bytes = replicate 26214401 (0::byte), type = ''audio/webm''\<rparr> ''audio/webm'') =
     (\<lparr>init_status = 400, data = ErrorData ''File size exceeds 25MB limit''\<rparr>, [])"
  using POST_rejects_oversized
    [of "upload \<lparr>bytes = replicate 26214401 (0::byte), type = ''audio/webm''\<rparr> ''audio/webm''"
     "[(''audio'', FormFile \<lparr>bytes = replicate 26214401 (0::byte), type = ''audio/webm'',
          name = ''recording.webm''\<rparr>)]"
     "\<lparr>bytes = replicate 26214401 (0::byte), type = ''audio/webm'', name = ''recording.webm''\<rparr>"
     "\<lambda>audio. Inr ''hello''"]
  by (simp add: upload_def formData_get_def size_of_def)

text \<open>A file of exactly 25 * 1024 * 1024 bytes, or less, is passed to the model.\<close>

lemma POST_forwards_within_limit:
  "formData request = Inr fd \<Longrightarrow> formData_get fd ''audio'' = Some (FormFile f) \<Longrightarrow>
   size_of f \<le> 25 * 1024 * 1024 \<Longrightarrow> snd (POST transcribe request) = [bytes f]"
  by (simp add: POST_def Let_def split: sum.splits)

lemma POST_form_without_audio:
  "formData request = Inr fd \<Longrightarrow> ''audio'' \<notin> fst ` set fd \<Longrightarrow>
   POST transcribe request =
     (\<lparr>init_status = 400, data = ErrorData ''No audio file provided''\<rparr>, [])"
proof -
  assume fd: "formData request = Inr fd" and no: "''audio'' \<notin> fst ` set fd"
  from no have "formData_get fd ''audio'' = None"
    by (simp add: formData_get_def map_of_eq_None_iff)
  with fd show ?thesis by (simp add: POST_def)
qed

lemma POST_not_form_data:
  "formData request = Inl message \<Longrightarrow> POST transcribe request = (failed message, [])"
  by (simp add: POST_def)

text \<open>
  C6, as the code has it. For a request that lacks the field \<^verbatim>\<open>audio\<close> the external
  model is never invoked. The answer is a client error only when the form can be
  read: then it is status 400 with \<^verbatim>\<open>No audio file provided\<close>. When the body is not form
  data, \<^verbatim>\<open>request.formData()\<close> rejects inside the \<^verbatim>\<open>try\<close> block and the \<^verbatim>\<open>catch\<close> block
  answers with status 500 and \<^verbatim>\<open>Transcription failed:\<close> followed by the message.
\<close>

theorem POST_without_audio:
  "lacks_audio request \<Longrightarrow>
   snd (POST transcribe request) = [] \<and>
   fst (POST transcribe request) =
     (case formData request of
        Inl message \<Rightarrow>
          \<lparr>init_status = 500, data = ErrorData (''Transcription failed: '' @ message)\<rparr>
      | Inr fd \<Rightarrow> \<lparr>init_status = 400, data = ErrorData ''No audio file provided''\<rparr>)"
proof (cases "formData request")
  case (Inl message)
  then show ?thesis by (simp add: POST_not_form_data failed_def)
next
  case (Inr fd)
  assume "lacks_audio request"
  then have "''audio'' \<notin> fst ` set fd" using Inr by (simp add: lacks_audio_def)
  then show ?thesis using Inr by (simp add: POST_form_without_audio)
qed

theorem POST_without_audio_witness:
  "lacks_audio misnamed_request \<and>
   POST (\<lambda>audio. Inr ''hello'') misnamed_request =
     (\<lparr>init_status = 400, data = ErrorData ''No audio file provided''\<rparr>, []) \<and>
   lacks_audio json_request \<and>
   POST (\<lambda>audio. Inr ''hello'') json_request =
     (\<lparr>init_status = 500,
       data = ErrorData ''Transcription failed: Failed to parse body as FormData.''\<rparr>, [])"
proof -
  have a: "lacks_audio misnamed_request"
    by (simp add: lacks_audio_def misnamed_request_def)
  have b: "lacks_audio json_request"
    by (simp add: lacks_audio_def json_request_def)
  show ?thesis
    using POST_without_audio [OF a, of "\<lambda>audio. Inr ''hello''"]
      POST_without_audio [OF b, of "\<lambda>audio. Inr ''hello''"] a b
    by (simp add: misnamed_request_def json_request_def prod_eq_iff)
qed

text \<open>
  The claim C6 as the specification states it fails: a request with a JSON body lacks
  the field \<^verbatim>\<open>audio\<close>, and the answer is status 500, not a client error.
\<close>

theorem malformed_upload_500_counterexample:
  "lacks_audio json_request \<and>
   init_status (fst (POST (\<lambda>audio. Inr ''hello'') json_request)) = 500 \<and>
   \<not> (400 \<le> init_status (fst (POST (\<lambda>audio. Inr ''hello'') json_request)) \<and>
      init_status (fst (POST (\<lambda>audio. Inr ''hello'') json_request)) \<le> 499) \<and>
   snd (POST (\<lambda>audio. Inr ''hello'') json_request) = []"
  by (simp add: lacks_audio_def json_request_def POST_def failed_def)

text \<open>The form that the component posts always has its \<^verbatim>\<open>audio\<close> entry.\<close>

lemma upload_has_audio:
  "formData (upload b mimeType) = Inr fd \<Longrightarrow>
   formData_get fd ''audio'' =
     Some (FormFile \<lparr>bytes = bytes b, type = mimeType, name = ''recording.webm''\<rparr>)"
  by (auto simp: upload_def formData_get_def)

section \<open>\<^verbatim>\<open>transcribeAudio\<close>\<close>

text \<open>When the \<^verbatim>\<open>try\<close> block reaches the update, and when it throws.\<close>

lemma received_Inr_iff:
  "received fetched = Inr t \<longleftrightarrow>
     (\<exists>r. fetched = Inr r \<and> ok r \<and> body_json r = Inr (Some t) \<and> t \<noteq> '''')"
  by (auto simp: received_def split: sum.splits option.splits if_splits)

lemma received_rejected: "received (Inl message) = Inl message"
  by (simp add: received_def)

lemma received_not_ok:
  "\<not> ok r \<Longrightarrow> body_text r = Inr errorText \<Longrightarrow>
   received (Inr r) =
     Inl (''API request failed: '' @ string_of_nat (status r) @ '' - '' @ errorText)"
  by (simp add: received_def)

lemma received_reply_ok:
  "received (Inr (reply_ok t)) =
     (if t \<noteq> '''' then Inr t else Inl ''No transcription text received'')"
  by (simp add: received_def reply_ok_def ok_def)

lemma POST_within_limit:
  "formData request = Inr fd \<Longrightarrow> formData_get fd ''audio'' = Some (FormFile f) \<Longrightarrow>
   size_of f \<le> 25 * 1024 * 1024 \<Longrightarrow>
   POST transcribe request =
     (case transcribe (bytes f) of
        Inl message \<Rightarrow> (failed message, [bytes f])
      | Inr result_text \<Rightarrow> (\<lparr>init_status = 200, data = SuccessData result_text\<rparr>, [bytes f]))"
  by (simp add: POST_def Let_def)

lemma received_failed:
  "received (Inr (deliver raw (failed message))) = Inl (''API request failed: 500 - '' @ raw)"
  by (simp add: received_def deliver_def failed_def ok_def string_of_500)

lemma received_success:
  "received (Inr (deliver raw \<lparr>init_status = 200, data = SuccessData t\<rparr>)) =
     (if t \<noteq> '''' then Inr t else Inl ''No transcription text received'')"
  by (simp add: received_def deliver_def ok_def)

lemma error_after_call:
  "transcriptionError (transcribeAudio fetched i s) =
     (case received fetched of Inl message \<Rightarrow> Some message | Inr t \<Rightarrow> None)"
  by (simp add: transcribeAudio_def transcribeAudio_settle_def transcribeAudio_begin_def
      split: sum.splits)

lemma error_after_settle:
  "transcriptionError (transcribeAudio_settle fetched i s) =
     (case received fetched of Inl message \<Rightarrow> Some message | Inr t \<Rightarrow> transcriptionError s)"
  by (simp add: transcribeAudio_settle_def split: sum.splits)

text \<open>
  C1, as the code has it. An empty text is never accepted as a success. When the
  external model returns the empty text for an upload, \<^verbatim>\<open>transcribe\<close> throws, the
  gateway answers with status 500 and \<^verbatim>\<open>Transcription failed: No transcript generated.\<close>,
  and the session's last error becomes \<^verbatim>\<open>API request failed: 500 - \<close> followed by the
  body of the answer. Whatever \<^verbatim>\<open>transcribe\<close> does, the last error is unset after a call
  exactly when \<^verbatim>\<open>transcribe\<close> returned a text that is not empty: the component has its
  own guard, \<^verbatim>\<open>if (result.text)\<close>, whose \<^verbatim>\<open>else\<close> branch throws
  \<^verbatim>\<open>No transcription text received\<close> on a successful answer with an empty text. A
  successful answer with a text that is not empty leaves the last error as it was.
\<close>

theorem empty_text_never_accepted:
  "formData request = Inr fd \<Longrightarrow> formData_get fd ''audio'' = Some (FormFile f) \<Longrightarrow>
   size_of f \<le> 25 * 1024 * 1024 \<Longrightarrow>
   (model (bytes f) = Inr '''' \<longrightarrow>
      POST (experimental_transcribe model) request =
        (\<lparr>init_status = 500,
          data = ErrorData ''Transcription failed: No transcript generated.''\<rparr>, [bytes f]) \<and>
      transcriptionError
        (transcribeAudio_settle
           (Inr (deliver raw (fst (POST (experimental_transcribe model) request)))) i s) =
        Some (''API request failed: 500 - '' @ raw)) \<and>
   ((transcriptionError
       (transcribeAudio (Inr (deliver raw (fst (POST transcribe request)))) i s) = None) =
    (\<exists>t. transcribe (bytes f) = Inr t \<and> t \<noteq> '''')) \<and>
   (ok r \<and> body_json r = Inr (Some '''') \<longrightarrow>
      transcribeAudio_settle (Inr r) i s =
        s\<lparr>transcriptionError := Some ''No transcription text received'', isTranscribing := False\<rparr>) \<and>
   (received fetched = Inr t' \<longrightarrow>
      transcriptionError (transcribeAudio_settle fetched i s) = transcriptionError s)"
proof -
  assume fd: "formData request = Inr fd"
    and get: "formData_get fd ''audio'' = Some (FormFile f)"
    and size: "size_of f \<le> 25 * 1024 * 1024"
  note post = POST_within_limit [OF fd get size]
  have 1: "model (bytes f) = Inr '''' \<longrightarrow>
      POST (experimental_transcribe model) request =
        (\<lparr>init_status = 500,
          data = ErrorData ''Transcription failed: No transcript generated.''\<rparr>, [bytes f]) \<and>
      transcriptionError
        (transcribeAudio_settle
           (Inr (deliver raw (fst (POST (experimental_transcribe model) request)))) i s) =
        Some (''API request failed: 500 - '' @ raw)"
  proof
    assume m: "model (bytes f) = Inr ''''"
    have p: "POST (experimental_transcribe model) request =
        (failed ''No transcript generated.'', [bytes f])"
      using m by (simp add: post experimental_transcribe_def)
    show "POST (experimental_transcribe model) request =
        (\<lparr>init_status = 500,
          data = ErrorData ''Transcription failed: No transcript generated.''\<rparr>, [bytes f]) \<and>
      transcriptionError
        (transcribeAudio_settle
           (Inr (deliver raw (fst (POST (experimental_transcribe model) request)))) i s) =
        Some (''API request failed: 500 - '' @ raw)"
      unfolding p by (simp add: error_after_settle received_failed) (simp add: failed_def)
  qed
  have 2: "(transcriptionError
       (transcribeAudio (Inr (deliver raw (fst (POST transcribe request)))) i s) = None) =
    (\<exists>t. transcribe (bytes f) = Inr t \<and> t \<noteq> '''')"
  proof (cases "transcribe (bytes f)")
    case (Inl message)
    then show ?thesis by (simp add: post error_after_call received_failed)
  next
    case (Inr t)
    then show ?thesis by (simp add: post error_after_call received_success)
  qed
  have 3: "ok r \<and> body_json r = Inr (Some '''') \<longrightarrow>
      transcribeAudio_settle (Inr r) i s =
        s\<lparr>transcriptionError := Some ''No transcription text received'', isTranscribing := False\<rparr>"
    by (simp add: transcribeAudio_settle_def received_def)
  have 4: "received fetched = Inr t' \<longrightarrow>
      transcriptionError (transcribeAudio_settle fetched i s) = transcriptionError s"
    by (simp add: error_after_settle)
  show ?thesis using 1 2 3 4 by blast
qed

theorem empty_text_never_accepted_witness:
  "formData (upload (blob rec_a) ''audio/webm;codecs=opus'') =
     Inr [(''audio'', FormFile \<lparr>bytes = [1, 2, 3], type = ''audio/webm;codecs=opus'',
             name = ''recording.webm''\<rparr>)] \<and>
   size_of \<lparr>bytes = [1, 2, 3], type = ''audio/webm;codecs=opus'', name = ''recording.webm''\<rparr>
     \<le> 25 * 1024 * 1024 \<and>
   silence [1, 2, 3] = Inr '''' \<and>
   POST (experimental_transcribe silence) (upload (blob rec_a) ''audio/webm;codecs=opus'') =
     (\<lparr>init_status = 500,
       data = ErrorData ''Transcription failed: No transcript generated.''\<rparr>, [[1, 2, 3]]) \<and>
   transcriptionError
     (transcribeAudio
        (Inr (deliver ''{}''
           (fst (POST (\<lambda>audio. Inr ''hello'') (upload (blob rec_a) ''audio/webm;codecs=opus'')))))
        ''1700000000000'' two_recordings) = None \<and>
   ok (reply_ok '''') \<and> body_json (reply_ok '''') = Inr (Some '''') \<and>
   transcriptionError
     (transcribeAudio_settle (Inr (reply_ok '''')) ''1700000000000'' two_recordings) =
     Some ''No transcription text received'' \<and>
   received (Inr (reply_ok ''hello'')) = Inr ''hello'' \<and>
   transcriptionError
     (transcribeAudio_settle (Inr (reply_ok ''hello'')) ''1700000005000''
        (two_recordings\<lparr>transcriptionError := Some ''Failed to fetch''\<rparr>)) =
     Some ''Failed to fetch''"
proof -
  let ?req = "upload (blob rec_a) ''audio/webm;codecs=opus''"
  let ?f = "\<lparr>bytes = [1, 2, 3], type = ''audio/webm;codecs=opus'', name = ''recording.webm''\<rparr>"
  have fd: "formData ?req = Inr [(''audio'', FormFile ?f)]"
    by (simp add: upload_def rec_a_def)
  have get: "formData_get [(''audio'', FormFile ?f)] ''audio'' = Some (FormFile ?f)"
    by (simp add: formData_get_def)
  have size: "size_of ?f \<le> 25 * 1024 * 1024"
    by (simp add: size_of_def)
  have ok: "ok (reply_ok '''')" "body_json (reply_ok '''') = Inr (Some '''')"
    by (simp_all add: reply_ok_def ok_def)
  show ?thesis
    using empty_text_never_accepted [OF fd get size, where model = silence
        and transcribe = "\<lambda>audio. Inr ''hello''" and raw = "''{}''" and r = "reply_ok ''''"
        and i = "''1700000000000''" and s = two_recordings
        and fetched = "Inr (reply_ok ''hello'')" and t' = "''hello''"]
      empty_text_never_accepted [OF fd get size, where fetched = "Inr (reply_ok ''hello'')"
        and t' = "''hello''" and i = "''1700000005000''"
        and s = "two_recordings\<lparr>transcriptionError := Some ''Failed to fetch''\<rparr>"]
      fd size ok
    by (simp add: silence_def received_reply_ok)
qed

text \<open>
  The claim C1 as the specification states it fails: the external model succeeds and
  returns the empty text for the recording, and the session ends with its last error
  set.
\<close>

theorem silence_reported_counterexample:
  "silence (bytes (blob rec_a)) = Inr '''' \<and>
   POST (experimental_transcribe silence) (upload (blob rec_a) ''audio/webm;codecs=opus'') =
     (failed ''No transcript generated.'', [[1, 2, 3]]) \<and>
   transcriptionError
     (transcribeAudio
        (Inr (deliver raw_no_transcript
           (fst (POST (experimental_transcribe silence)
              (upload (blob rec_a) ''audio/webm;codecs=opus'')))))
        ''1700000000000'' two_recordings) =
     Some (''API request failed: 500 - '' @ raw_no_transcript)"
  by (simp add: silence_def experimental_transcribe_def POST_def upload_def formData_get_def
      size_of_def rec_a_def error_after_call received_failed)

text \<open>
  C4. When a call of \<^verbatim>\<open>transcribeAudio\<close> fails (its \<^verbatim>\<open>try\<close> block throws an error with
  some message), the last error is that message, the recordings (so the transcription
  of the targeted one) and the draft text are as before, and the transcribing flag is
  false. The flag is false after every settled call, failed or not.
\<close>

theorem transcribe_failure_settles:
  "(received fetched = Inl message \<longrightarrow>
      transcriptionError (transcribeAudio_settle fetched i s) = Some message \<and>
      recordings (transcribeAudio_settle fetched i s) = recordings s \<and>
      textarea (transcribeAudio_settle fetched i s) = textarea s \<and>
      \<not> isTranscribing (transcribeAudio_settle fetched i s)) \<and>
   \<not> isTranscribing (transcribeAudio_settle fetched i s) \<and>
   \<not> isTranscribing (transcribeAudio fetched i s)"
  by (simp add: transcribeAudio_settle_def transcribeAudio_def split: sum.splits)

theorem transcribe_failure_settles_witness:
  "fst (POST (\<lambda>audio. Inl ''rate limit exceeded'') (upload (blob rec_a) ''audio/webm'')) =
     failed ''rate limit exceeded'' \<and>
   received (Inr (deliver raw_error (failed ''rate limit exceeded''))) =
     Inl (''API request failed: 500 - '' @ raw_error) \<and>
   transcriptionError (transcribeAudio_settle (Inr (deliver raw_error (failed ''rate limit exceeded'')))
       ''1700000000000'' (transcribeAudio_begin two_recordings)) =
     Some (''API request failed: 500 - '' @ raw_error) \<and>
   recordings (transcribeAudio_settle (Inr (deliver raw_error (failed ''rate limit exceeded'')))
       ''1700000000000'' (transcribeAudio_begin two_recordings)) = [rec_a, rec_b] \<and>
   isTranscribing (transcribeAudio_begin two_recordings) \<and>
   \<not> isTranscribing (transcribeAudio_settle (Inr (deliver raw_error (failed ''rate limit exceeded'')))
       ''1700000000000'' (transcribeAudio_begin two_recordings))"
proof -
  have r: "received (Inr (deliver raw_error (failed ''rate limit exceeded''))) =
     Inl (''API request failed: 500 - '' @ raw_error)"
    by (simp add: received_def deliver_def failed_def ok_def string_of_500)
  have p: "fst (POST (\<lambda>audio. Inl ''rate limit exceeded'') (upload (blob rec_a) ''audio/webm'')) =
     failed ''rate limit exceeded''"
    by (simp add: POST_def upload_def formData_get_def size_of_def rec_a_def)
  show ?thesis
    using transcribe_failure_settles [of "Inr (deliver raw_error (failed ''rate limit exceeded''))"
        "''API request failed: 500 - '' @ raw_error" "''1700000000000''"
        "transcribeAudio_begin two_recordings"] r p
    by (simp add: transcribeAudio_begin_def two_recordings_def)
qed

text \<open>
  C5. After a successful transcription with text \<open>t\<close> the draft text is \<open>t\<close> when it was
  empty, and the previous text, one space and \<open>t\<close> otherwise. (A call succeeds only with
  a text that is not empty.)
\<close>

theorem draft_text_appended:
  "received fetched = Inr t \<Longrightarrow> textarea s = Some currentText \<Longrightarrow>
   textarea (transcribeAudio_settle fetched i s) =
     Some (if currentText = '''' then t else currentText @ '' '' @ t)"
  by (simp add: transcribeAudio_settle_def)

theorem draft_text_appended_witness:
  "received (Inr (reply_ok ''hello world'')) = Inr ''hello world'' \<and>
   received (Inr (reply_ok ''foo'')) = Inr ''foo'' \<and>
   textarea two_recordings = Some '''' \<and>
   textarea (transcribeAudio_settle (Inr (reply_ok ''hello world'')) ''1700000000000'' two_recordings)
     = Some ''hello world'' \<and>
   textarea (transcribeAudio_settle (Inr (reply_ok ''foo'')) ''1700000005000''
       (transcribeAudio_settle (Inr (reply_ok ''hello world'')) ''1700000000000'' two_recordings))
     = Some ''hello world foo''"
  using draft_text_appended [of "Inr (reply_ok ''hello world'')" "''hello world''" two_recordings
          "''''" "''1700000000000''"]
    draft_text_appended [of "Inr (reply_ok ''foo'')" "''foo''"
          "transcribeAudio_settle (Inr (reply_ok ''hello world'')) ''1700000000000'' two_recordings"
          "''hello world''" "''1700000005000''"]
  by (simp add: received_reply_ok two_recordings_def initial_def)

text \<open>
  C9. A successful transcription for the recording id \<open>i\<close> keeps the length and the order
  of the list; a recording with another id is unchanged, and a recording with the id
  \<open>i\<close> keeps its id, url, blob and timestamp and gets the text as its transcription.
\<close>

theorem transcription_update_frame:
  "received fetched = Inr t \<Longrightarrow>
   length (recordings (transcribeAudio_settle fetched i s)) = length (recordings s) \<and>
   (\<forall>n < length (recordings s).
      let old = recordings s ! n; new = recordings (transcribeAudio_settle fetched i s) ! n
      in id_rec new = id_rec old \<and> url new = url old \<and> blob new = blob old \<and>
         timestamp new = timestamp old \<and>
         (if id_rec old = i then transcription new = Some t else new = old))"
  by (simp add: transcribeAudio_settle_def Let_def)

theorem transcription_update_frame_witness:
  "received (Inr (reply_ok ''hello world'')) = Inr ''hello world'' \<and>
   recordings (transcribeAudio_settle (Inr (reply_ok ''hello world'')) ''1700000005000'' two_recordings)
     = [rec_a, rec_b\<lparr>transcription := Some ''hello world''\<rparr>]"
  using transcription_update_frame [of "Inr (reply_ok ''hello world'')" "''hello world''"
      "''1700000005000''" two_recordings]
  by (simp add: received_reply_ok transcribeAudio_settle_def two_recordings_def rec_a_def rec_b_def)

section \<open>Identifiers\<close>

lemma ids_step:
  "map id_rec (recordings (sess (step e w))) =
     map id_rec (recordings (sess w)) @ map string_of_nat (stop_times [e])"
proof (cases e)
  case (Settled i fetched)
  then show ?thesis
    by (simp add: transcribeAudio_settle_def comp_def split: sum.splits)
next
  case RetryClicked
  then show ?thesis
    by (simp add: retry_onClick_def retryTranscription_def transcribeAudio_begin_def Let_def
        split: option.splits)
qed (simp_all add: handleMicClick_def startRecording_def stopRecording_def ondataavailable_def
      onstop_def transcribeAudio_begin_def Let_def)

lemma stop_times_Cons: "stop_times (e # es) = stop_times [e] @ stop_times es"
  by (cases e) simp_all

lemma ids_run:
  "map id_rec (recordings (sess (run es w))) =
     map id_rec (recordings (sess w)) @ map string_of_nat (stop_times es)"
proof (induction es arbitrary: w)
  case Nil
  then show ?case by simp
next
  case (Cons e es)
  have "map id_rec (recordings (sess (run (e # es) w))) =
      map id_rec (recordings (sess (step e w))) @ map string_of_nat (stop_times es)"
    using Cons.IH [of "step e w"] by simp
  also have "\<dots> = map id_rec (recordings (sess w)) @ map string_of_nat (stop_times [e])
      @ map string_of_nat (stop_times es)"
    by (simp only: ids_step append_assoc)
  also have "\<dots> = map id_rec (recordings (sess w)) @ map string_of_nat (stop_times (e # es))"
    by (subst (2) stop_times_Cons) simp
  finally show ?case .
qed

text \<open>
  C8, as the code has it. The identifier of a recording is the decimal string of what
  \<^verbatim>\<open>Date.now()\<close> returned in its \<^verbatim>\<open>stop\<close> event. So the identifiers of the recordings
  of a session are pairwise distinct exactly when these clock readings are; the code
  does nothing else to keep them apart.
\<close>

theorem ids_are_stop_times:
  "map id_rec (recordings (sess (run es init_world))) = map string_of_nat (stop_times es) \<and>
   (distinct (map id_rec (recordings (sess (run es init_world)))) \<longleftrightarrow> distinct (stop_times es))"
proof -
  have ids: "map id_rec (recordings (sess (run es init_world))) = map string_of_nat (stop_times es)"
    using ids_run [of es init_world] by (simp add: init_world_def initial_def)
  then show ?thesis
    by (simp add: distinct_map inj_on_def string_of_nat_inj)
qed

text \<open>
  The claim C8 as the specification states it fails: two recordings that are stopped
  at the same clock reading are different recordings with the same identifier.
\<close>

theorem same_time_same_id_counterexample:
  "length (recordings (sess (run clock_set_back init_world))) = 2 \<and>
   recordings (sess (run clock_set_back init_world)) ! 0 \<noteq>
     recordings (sess (run clock_set_back init_world)) ! 1 \<and>
   id_rec (recordings (sess (run clock_set_back init_world)) ! 0) =
     id_rec (recordings (sess (run clock_set_back init_world)) ! 1)"
  by (simp add: clock_set_back_def init_world_def initial_def handleMicClick_def
      startRecording_def stopRecording_def ondataavailable_def onstop_def size_of_def
      transcribeAudio_begin_def transcribeAudio_settle_def received_def mimeType_of_def
      string_of_time_a Let_def)

section \<open>Playback\<close>

text \<open>
  C10. \<^verbatim>\<open>togglePlayback\<close> with an identifier under which no audio element is registered
  returns at once: the state is unchanged.
\<close>

theorem togglePlayback_unregistered:
  "k \<notin> fst ` set (audioRefs s) \<Longrightarrow> togglePlayback k s = s"
proof -
  assume "k \<notin> fst ` set (audioRefs s)"
  then have "map_of (audioRefs s) k = None" by (simp add: map_of_eq_None_iff)
  then show ?thesis by (simp add: togglePlayback_def)
qed

theorem togglePlayback_unregistered_witness:
  "''42'' \<notin> fst ` set (audioRefs two_recordings) \<and>
   togglePlayback ''42'' two_recordings = two_recordings"
  using togglePlayback_unregistered [of "''42''" two_recordings]
  by (simp add: two_recordings_def)

subsection \<open>Playing elements\<close>

lemma playing_now_keys: "playing_now s = playing_keys (audioRefs s)"
  by (simp add: playing_now_def playing_keys_def)

lemma set_paused_Nil: "set_paused k b [] = []"
  by (simp add: set_paused_def)

lemma set_paused_Cons:
  "set_paused k b ((k', el) # refs) =
     (if k' = k then (k', el\<lparr>paused := b\<rparr>) else (k', el)) # set_paused k b refs"
  by (simp add: set_paused_def)

lemma playing_keys_Nil: "playing_keys [] = []"
  by (simp add: playing_keys_def)

lemma playing_keys_Cons:
  "playing_keys ((k, el) # refs) = (if paused el then playing_keys refs else k # playing_keys refs)"
  by (simp add: playing_keys_def)

lemmas player_simps = set_paused_Nil set_paused_Cons playing_keys_Nil playing_keys_Cons

lemma keys_set_paused: "map fst (set_paused k b refs) = map fst refs"
  by (induction refs) (auto simp: player_simps)

lemma playing_keys_pause:
  "set (playing_keys (set_paused k True refs)) = set (playing_keys refs) - {k}"
proof (induction refs)
  case Nil
  show ?case by (simp add: player_simps)
next
  case (Cons x refs)
  obtain k' el where x: "x = (k', el)" by (cases x)
  show ?case using Cons.IH by (auto simp: x player_simps)
qed

lemma playing_keys_play:
  "set (playing_keys (set_paused k False refs)) = set (playing_keys refs) \<union> ({k} \<inter> fst ` set refs)"
proof (induction refs)
  case Nil
  show ?case by (simp add: player_simps)
next
  case (Cons x refs)
  obtain k' el where x: "x = (k', el)" by (cases x)
  show ?case using Cons.IH by (auto simp: x player_simps)
qed

lemma playing_keys_subset: "set (playing_keys refs) \<subseteq> fst ` set refs"
  by (auto simp: playing_keys_def)

lemma playing_keys_distinct: "distinct (map fst refs) \<Longrightarrow> distinct (playing_keys refs)"
  by (simp add: playing_keys_def distinct_map_filter)

lemma distinct_singleton: "distinct xs \<Longrightarrow> set xs = {k} \<Longrightarrow> xs = [k]"
proof (cases xs)
  case Nil
  assume "set xs = {k}"
  then show ?thesis using Nil by simp
next
  case (Cons y ys)
  assume d: "distinct xs" and s: "set xs = {k}"
  have "y = k" using s Cons by auto
  moreover have "set ys \<subseteq> {k}" using s Cons by auto
  moreover have "k \<notin> set ys" using d Cons \<open>y = k\<close> by simp
  ultimately have "ys = []" by (cases ys) auto
  then show ?thesis using Cons \<open>y = k\<close> by simp
qed

lemma distinct_at_most_one: "distinct xs \<Longrightarrow> set xs \<subseteq> {k} \<Longrightarrow> length xs \<le> 1"
proof -
  assume d: "distinct xs" and s: "set xs \<subseteq> {k}"
  have "length xs = card (set xs)" using d by (simp add: distinct_card)
  also have "\<dots> \<le> card {k}" using s by (intro card_mono) auto
  finally show ?thesis by simp
qed

lemma player_ok_iff:
  "player_ok s \<longleftrightarrow>
     distinct (map fst (audioRefs s)) \<and> '''' \<notin> fst ` set (audioRefs s) \<and>
     (\<forall>k \<in> set (playing_keys (audioRefs s)). playingId s = Some k)"
  by (simp add: player_ok_def playing_now_keys list_all_iff)

lemma map_of_registered: "map_of refs k = Some el \<Longrightarrow> k \<in> fst ` set refs"
  by (metis map_of_eq_None_iff option.distinct(1))

lemma registered_map_of: "k \<in> fst ` set refs \<Longrightarrow> \<exists>el. map_of refs k = Some el"
  by (metis map_of_eq_None_iff not_Some_eq)

subsection \<open>The player keeps its state well formed\<close>

lemma player_okI:
  "player_ok s \<Longrightarrow> map fst (audioRefs s') = map fst (audioRefs s) \<Longrightarrow>
   (\<forall>k \<in> set (playing_now s'). playingId s' = Some k) \<Longrightarrow> player_ok s'"
  by (simp add: player_ok_def list_all_iff)

lemma same_keys: "map fst refs' = map fst refs \<Longrightarrow> fst ` set refs' = fst ` set refs"
  by (metis set_map)

lemma toggle_pause:
  assumes "player_ok s" "k \<in> fst ` set (audioRefs s)" "playingId s = Some k"
  shows "playingId (togglePlayback k s) = None" "playing_now (togglePlayback k s) = []"
    "map fst (audioRefs (togglePlayback k s)) = map fst (audioRefs s)"
proof -
  obtain el where el: "map_of (audioRefs s) k = Some el"
    using registered_map_of [OF assms(2)] by blast
  have t: "togglePlayback k s = s\<lparr>audioRefs := set_paused k True (audioRefs s), playingId := None\<rparr>"
    using el assms(3) by (simp add: togglePlayback_def)
  show "playingId (togglePlayback k s) = None" by (simp add: t)
  have "\<forall>x \<in> set (playing_keys (audioRefs s)). x = k"
    using assms(1,3) by (simp add: player_ok_iff)
  then have "set (playing_keys (set_paused k True (audioRefs s))) = {}"
    unfolding playing_keys_pause by blast
  then show "playing_now (togglePlayback k s) = []"
    by (simp add: t playing_now_keys)
  show "map fst (audioRefs (togglePlayback k s)) = map fst (audioRefs s)"
    by (simp add: t keys_set_paused)
qed

lemma toggle_play:
  assumes "player_ok s" "k \<in> fst ` set (audioRefs s)" "playingId s \<noteq> Some k"
  shows "playingId (togglePlayback k s) = Some k" "playing_now (togglePlayback k s) = [k]"
    "map fst (audioRefs (togglePlayback k s)) = map fst (audioRefs s)"
proof -
  obtain el where el: "map_of (audioRefs s) k = Some el"
    using registered_map_of [OF assms(2)] by blast
  define refs where "refs =
     (case playingId s of
        None \<Rightarrow> audioRefs s
      | Some p \<Rightarrow>
          if p \<noteq> '''' then
            (case map_of (audioRefs s) p of
               None \<Rightarrow> audioRefs s
             | Some currentAudio \<Rightarrow> set_paused p True (audioRefs s))
          else audioRefs s)"
  have t: "togglePlayback k s = s\<lparr>audioRefs := set_paused k False refs, playingId := Some k\<rparr>"
    using el assms(3) by (simp add: togglePlayback_def refs_def)
  show "playingId (togglePlayback k s) = Some k" by (simp add: t)
  have keys: "map fst refs = map fst (audioRefs s)"
    by (simp add: refs_def keys_set_paused split: option.splits)
  have quiet: "set (playing_keys refs) = {}"
  proof (cases "playingId s")
    case None
    then have "\<forall>x \<in> set (playing_keys (audioRefs s)). False"
      using assms(1) by (simp add: player_ok_iff)
    then have "playing_keys (audioRefs s) = []" by (cases "playing_keys (audioRefs s)") auto
    then show ?thesis using None by (simp add: refs_def)
  next
    case (Some p)
    have only: "\<forall>x \<in> set (playing_keys (audioRefs s)). x = p"
      using assms(1) Some by (simp add: player_ok_iff)
    show ?thesis
    proof (cases "map_of (audioRefs s) p")
      case None
      then have "p \<notin> fst ` set (audioRefs s)" by (simp add: map_of_eq_None_iff)
      have "playing_keys (audioRefs s) = []"
      proof (cases "playing_keys (audioRefs s)")
        case Nil
        then show ?thesis .
      next
        case (Cons y ys)
        then have y: "y \<in> set (playing_keys (audioRefs s))" by simp
        then have "y = p" using only by blast
        moreover have "y \<in> fst ` set (audioRefs s)"
          using y playing_keys_subset [of "audioRefs s"] by blast
        ultimately show ?thesis using \<open>p \<notin> fst ` set (audioRefs s)\<close> by blast
      qed
      then show ?thesis using Some None by (simp add: refs_def)
    next
      case (Some currentAudio)
      then have "p \<in> fst ` set (audioRefs s)" by (rule map_of_registered)
      moreover have "'''' \<notin> fst ` set (audioRefs s)"
        using assms(1) by (simp add: player_ok_iff)
      ultimately have "p \<noteq> ''''" by blast
      then have r: "refs = set_paused p True (audioRefs s)"
        using \<open>playingId s = Some p\<close> Some by (simp add: refs_def)
      have "set (playing_keys (set_paused p True (audioRefs s))) = {}"
        using only unfolding playing_keys_pause by blast
      then show ?thesis by (simp only: r)
    qed
  qed
  have "k \<in> fst ` set refs" using assms(2) same_keys [OF keys] by simp
  then have "set (playing_keys (set_paused k False refs)) = {k}"
    unfolding playing_keys_play quiet by blast
  moreover have "distinct (playing_keys (set_paused k False refs))"
  proof (rule playing_keys_distinct)
    show "distinct (map fst (set_paused k False refs))"
      using assms(1) by (simp add: keys_set_paused keys player_ok_iff)
  qed
  ultimately have "playing_keys (set_paused k False refs) = [k]"
    by (rule distinct_singleton [rotated])
  then show "playing_now (togglePlayback k s) = [k]"
    by (simp add: t playing_now_keys)
  show "map fst (audioRefs (togglePlayback k s)) = map fst (audioRefs s)"
    by (simp add: t keys keys_set_paused)
qed

lemma player_ok_toggle: "player_ok s \<Longrightarrow> player_ok (togglePlayback k s)"
proof -
  assume ok: "player_ok s"
  show ?thesis
  proof (cases "k \<in> fst ` set (audioRefs s)")
    case False
    then have "map_of (audioRefs s) k = None" by (simp add: map_of_eq_None_iff)
    then show ?thesis using ok by (simp add: togglePlayback_def)
  next
    case True
    show ?thesis
    proof (cases "playingId s = Some k")
      case True
      show ?thesis
        using toggle_pause [OF ok \<open>k \<in> fst ` set (audioRefs s)\<close> True]
        by (intro player_okI [OF ok]) simp_all
    next
      case False
      show ?thesis
        using toggle_play [OF ok True False]
        by (intro player_okI [OF ok]) simp_all
    qed
  qed
qed

lemma reach_end_playing:
  assumes "player_ok (view p)" "k \<in> set (playing_now (view p))"
  shows "reach_end k p =
     p\<lparr>view := (view p)\<lparr>audioRefs := set_paused k True (audioRefs (view p))\<rparr>,
       queued := queued p @ [k]\<rparr>"
proof -
  have d: "distinct (map fst (audioRefs (view p)))" using assms(1) by (simp add: player_ok_iff)
  obtain el where mem: "(k, el) \<in> set (audioRefs (view p))" and pl: "\<not> paused el"
    using assms(2) by (auto simp: playing_now_def)
  have el: "map_of (audioRefs (view p)) k = Some el"
    using d mem by simp
  show ?thesis using el pl by (simp add: reach_end_def)
qed

lemma reach_end_not_playing: "k \<notin> set (playing_now (view p)) \<Longrightarrow> reach_end k p = p"
proof (cases "map_of (audioRefs (view p)) k")
  case None
  then show ?thesis by (simp add: reach_end_def)
next
  case (Some el)
  assume no: "k \<notin> set (playing_now (view p))"
  from Some have "(k, el) \<in> set (audioRefs (view p))" by (rule map_of_SomeD)
  then have "paused el" using no by (force simp: playing_now_def)
  then show ?thesis using Some by (simp add: reach_end_def)
qed

lemma dispatch_nothing: "queued p = [] \<Longrightarrow> dispatch_ended p = p"
  by (simp add: dispatch_ended_def)

text \<open>
  The end of the playing audio, with its \<^verbatim>\<open>ended\<close> event dispatched at once: nothing
  plays any more and \<^verbatim>\<open>playingId\<close> is cleared.
\<close>

lemma prompt_end_playing:
  assumes "player_ok (view p)" "queued p = []" "k \<in> set (playing_now (view p))"
  shows "playingId (view (dispatch_ended (reach_end k p))) = None"
    "playing_now (view (dispatch_ended (reach_end k p))) = []"
    "map fst (audioRefs (view (dispatch_ended (reach_end k p)))) = map fst (audioRefs (view p))"
    "queued (dispatch_ended (reach_end k p)) = []"
proof -
  have t: "view (dispatch_ended (reach_end k p)) =
      (view p)\<lparr>audioRefs := set_paused k True (audioRefs (view p)), playingId := None\<rparr>"
    unfolding reach_end_playing [OF assms(1,3)]
    by (simp add: dispatch_ended_def onEnded_def assms(2))
  show "queued (dispatch_ended (reach_end k p)) = []"
    unfolding reach_end_playing [OF assms(1,3)]
    by (simp add: dispatch_ended_def assms(2))
  show "playingId (view (dispatch_ended (reach_end k p))) = None" by (simp add: t)
  have "playingId (view p) = Some k"
    using assms(1,3) by (simp add: player_ok_iff playing_now_keys)
  then have "\<forall>x \<in> set (playing_keys (audioRefs (view p))). x = k"
    using assms(1) by (simp add: player_ok_iff)
  then have "set (playing_keys (set_paused k True (audioRefs (view p)))) = {}"
    unfolding playing_keys_pause by blast
  then show "playing_now (view (dispatch_ended (reach_end k p))) = []"
    by (simp add: t playing_now_keys)
  show "map fst (audioRefs (view (dispatch_ended (reach_end k p)))) = map fst (audioRefs (view p))"
    by (simp add: t keys_set_paused)
qed

lemma player_ok_prompt_end:
  assumes "player_ok (view p)" "queued p = []"
  shows "player_ok (view (dispatch_ended (reach_end k p)))"
    "queued (dispatch_ended (reach_end k p)) = []"
proof -
  show "player_ok (view (dispatch_ended (reach_end k p)))"
  proof (cases "k \<in> set (playing_now (view p))")
    case True
    show ?thesis
      using prompt_end_playing(1,2,3) [OF assms True]
      by (intro player_okI [OF assms(1)]) simp_all
  next
    case False
    then show ?thesis using assms by (simp add: reach_end_not_playing dispatch_nothing)
  qed
  show "queued (dispatch_ended (reach_end k p)) = []"
  proof (cases "k \<in> set (playing_now (view p))")
    case True
    then show ?thesis by (rule prompt_end_playing(4) [OF assms])
  next
    case False
    then show ?thesis using assms by (simp add: reach_end_not_playing dispatch_nothing)
  qed
qed

lemma player_ok_prompt:
  "prompt es \<Longrightarrow> player_ok (view p) \<Longrightarrow> queued p = [] \<Longrightarrow>
   player_ok (view (playback es p)) \<and> queued (playback es p) = []"
proof (induction es arbitrary: p rule: prompt.induct)
  case 1
  then show ?case by simp
next
  case (2 k es)
  have "player_ok (view (playback_step (Toggle k) p))"
    using "2.prems"(2) by (simp add: player_ok_toggle)
  moreover have "queued (playback_step (Toggle k) p) = []"
    using "2.prems"(3) by simp
  moreover have "prompt es" using "2.prems"(1) by simp
  ultimately show ?case using "2.IH" by simp
next
  case (3 k es)
  have "player_ok (view (dispatch_ended (reach_end k p)))"
    and "queued (dispatch_ended (reach_end k p)) = []"
    using player_ok_prompt_end [OF "3.prems"(2,3)] by simp_all
  moreover have "prompt es" using "3.prems"(1) by simp
  ultimately show ?case using "3.IH" by simp
qed simp_all

lemma player_ok_at_most_one: "player_ok s \<Longrightarrow> length (playing_now s) \<le> 1"
proof -
  assume ok: "player_ok s"
  have d: "distinct (playing_now s)"
    using ok by (simp add: playing_now_keys playing_keys_distinct player_ok_iff)
  show ?thesis
  proof (cases "playingId s")
    case None
    then have "\<forall>x \<in> set (playing_now s). False"
      using ok by (simp add: player_ok_iff playing_now_keys)
    then have "playing_now s = []" by (cases "playing_now s") auto
    then show ?thesis by simp
  next
    case (Some p)
    then have "set (playing_now s) \<subseteq> {p}"
      using ok by (auto simp: player_ok_iff playing_now_keys)
    with d show ?thesis by (rule distinct_at_most_one)
  qed
qed

text \<open>
  The component builds such a state: it starts with no element, and the ref callback
  adds a paused element under the id of a new recording, which is not empty.
\<close>

lemma player_ok_initial: "player_ok initial"
  by (simp add: player_ok_def playing_now_def initial_def)

lemma player_ok_ref_callback:
  "player_ok s \<Longrightarrow> paused e \<Longrightarrow> id_rec r \<noteq> '''' \<Longrightarrow> id_rec r \<notin> fst ` set (audioRefs s) \<Longrightarrow>
   player_ok (ref_callback r (Some e) s)"
  by (simp add: player_ok_def playing_now_def ref_callback_def)

lemma onstop_id_not_empty: "id_rec (snd (onstop mimeType now date objectURL s)) \<noteq> ''''"
  by (simp add: onstop_def Let_def string_of_nat_not_empty)

lemma player_ok_two: "player_ok two_recordings"
  by (simp add: player_ok_def playing_now_def two_recordings_def initial_def)

text \<open>
  What the code keeps of the claim. \<^verbatim>\<open>togglePlayback\<close> alone keeps the player well
  formed: starting a recording pauses the one that \<^verbatim>\<open>playingId\<close> names and leaves one
  element playing, pausing clears \<^verbatim>\<open>playingId\<close> (lemmas \<open>toggle_play\<close>, \<open>toggle_pause\<close>).
  The handler \<^verbatim>\<open>onEnded\<close> clears \<^verbatim>\<open>playingId\<close>. And along a prompt run, where no click
  comes between the end of an audio and its \<^verbatim>\<open>ended\<close> event, at most one element plays.
\<close>

lemma onEnded_clears: "playingId (onEnded s) = None"
  by (simp add: onEnded_def)

lemma prompt_at_most_one:
  "prompt es \<Longrightarrow> player_ok (view p) \<Longrightarrow> queued p = [] \<Longrightarrow>
   length (playing_now (view (playback es p))) \<le> 1"
proof -
  assume "prompt es" "player_ok (view p)" "queued p = []"
  then have "player_ok (view (playback es p))"
    using player_ok_prompt [of es p] by blast
  then show ?thesis by (rule player_ok_at_most_one)
qed

lemmas play_defs = togglePlayback_def reach_end_def dispatch_ended_def onEnded_def
  set_paused_def playing_now_def player_ok_def two_recordings_def initial_def

text \<open>
  C7. At most one recording plays at any instant, for every interleaving of
  \<^verbatim>\<open>togglePlayback\<close> calls and end-of-audio events: the code does not keep this. The
  handler \<^verbatim>\<open>onEnded\<close> clears \<^verbatim>\<open>playingId\<close> without looking at which recording it names.
  When the second recording is started between the end of the first and the dispatch
  of its \<^verbatim>\<open>ended\<close> event, the handler clears the marker of the second recording, which
  plays on; the next \<^verbatim>\<open>togglePlayback\<close> finds no marker, pauses nothing, and two
  recordings play.
\<close>

theorem late_ended_two_playing:
  "player_ok two_recordings \<and>
   playing_now (view (playback [Toggle ''1700000000000'', ReachedEnd ''1700000000000'',
       Toggle ''1700000005000''] \<lparr>view = two_recordings, queued = []\<rparr>)) = [''1700000005000''] \<and>
   playingId (view (playback [Toggle ''1700000000000'', ReachedEnd ''1700000000000'',
       Toggle ''1700000005000'', EndedDispatched] \<lparr>view = two_recordings, queued = []\<rparr>)) = None \<and>
   playing_now (view (playback late_ended \<lparr>view = two_recordings, queued = []\<rparr>)) =
     [''1700000000000'', ''1700000005000''] \<and>
   length (playing_now (view (playback late_ended \<lparr>view = two_recordings, queued = []\<rparr>))) = 2"
  by (simp add: late_ended_def play_defs)

section \<open>Retry\<close>

lemma last_id_simps:
  "last_id (s\<lparr>isRecording := a\<rparr>) = last_id s"
  "last_id (s\<lparr>hasPermission := b\<rparr>) = last_id s"
  "last_id (s\<lparr>transcriptionError := c\<rparr>) = last_id s"
  "last_id (s\<lparr>isTranscribing := d\<rparr>) = last_id s"
  "last_id (s\<lparr>audioChunks := e\<rparr>) = last_id s"
  "last_id (s\<lparr>mediaRecorder := f\<rparr>) = last_id s"
  "last_id (s\<lparr>isProcessing := g\<rparr>) = last_id s"
  "last_id (s\<lparr>textarea := h\<rparr>) = last_id s"
  by (simp_all add: last_id_def lastRecording_def)

lemma last_id_append: "last_id (s\<lparr>recordings := recordings s @ [r]\<rparr>) = Some (id_rec r)"
  by (simp add: last_id_def lastRecording_def)

lemma last_id_begin: "last_id (transcribeAudio_begin s) = last_id s"
  by (simp add: transcribeAudio_begin_def last_id_simps)

lemma last_id_settle: "last_id (transcribeAudio_settle fetched i s) = last_id s"
proof (cases "received fetched")
  case (Inl m)
  then show ?thesis by (simp add: transcribeAudio_settle_def last_id_simps)
next
  case (Inr t)
  have "recordings s \<noteq> [] \<Longrightarrow>
     id_rec (last (map (\<lambda>recording. if id_rec recording = i
        then recording\<lparr>transcription := Some t\<rparr> else recording) (recordings s))) =
     id_rec (last (recordings s))"
    by (simp add: last_map)
  then show ?thesis using Inr
    by (simp add: transcribeAudio_settle_def last_id_def lastRecording_def)
qed

lemma error_settle:
  "transcriptionError (transcribeAudio_settle fetched i s) =
     (case received fetched of Inl m \<Rightarrow> Some m | Inr t \<Rightarrow> transcriptionError s)"
  by (simp add: transcribeAudio_settle_def split: sum.splits)

lemma inv_mic: "serial_inv w \<Longrightarrow> serial_inv (step (MicClicked g) w)"
  by (auto simp: serial_inv_def handleMicClick_def startRecording_def stopRecording_def last_id_simps)

lemma inv_stopclick: "serial_inv w \<Longrightarrow> serial_inv (step StopClicked w)"
  by (auto simp: serial_inv_def stopRecording_def last_id_simps)

lemma inv_data: "serial_inv w \<Longrightarrow> serial_inv (step (DataAvailable b) w)"
  by (auto simp: serial_inv_def ondataavailable_def last_id_simps)

lemma inv_stopped:
  "pending w = [] \<Longrightarrow> serial_inv (step (Stopped opus now date u) w)"
  by (simp add: serial_inv_def onstop_def Let_def last_id_begin last_id_simps last_id_append
      transcribeAudio_begin_def)

lemma inv_settled: "serial_inv w \<Longrightarrow> serial_inv (step (Settled i fetched) w)"
proof (cases "i \<in> set (pending w)")
  case False
  assume "serial_inv w"
  then show ?thesis using False by simp
next
  case True
  assume inv: "serial_inv w"
  with True have p: "pending w = [i]" and l: "last_id (sess w) = Some i"
    and e: "transcriptionError (sess w) = None"
    by (auto simp: serial_inv_def)
  show ?thesis
    using True p l e
    by (simp add: serial_inv_def last_id_settle error_settle split: sum.splits)
qed

lemma inv_retry: "pending w = [] \<Longrightarrow> serial_inv w \<Longrightarrow> serial_inv (step RetryClicked w)"
proof (cases "retry_visible (sess w) \<and> lastRecording (sess w) \<noteq> None")
  case False
  assume "serial_inv w"
  then show ?thesis using False by (auto simp: retry_onClick_def)
next
  case True
  assume p: "pending w = []"
  from True obtain r where r: "lastRecording (sess w) = Some r" by blast
  have st: "step RetryClicked w =
      w\<lparr>sess := transcribeAudio_begin (sess w), pending := [id_rec r]\<rparr>"
    using True r p by (simp add: retry_onClick_def retryTranscription_def Let_def)
  have "last_id (transcribeAudio_begin (sess w)) = Some (id_rec r)"
    using r by (simp add: last_id_begin) (simp add: last_id_def)
  moreover have "transcriptionError (transcribeAudio_begin (sess w)) = None"
    by (simp add: transcribeAudio_begin_def)
  ultimately show ?thesis unfolding st by (simp add: serial_inv_def)
qed

lemma inv_step:
  "serial_inv w \<Longrightarrow> (starts_call e \<Longrightarrow> pending w = []) \<Longrightarrow> serial_inv (step e w)"
proof (cases e)
  case (MicClicked g)
  assume "serial_inv w" then show ?thesis unfolding MicClicked by (rule inv_mic)
next
  case StopClicked
  assume "serial_inv w" then show ?thesis unfolding StopClicked by (rule inv_stopclick)
next
  case (DataAvailable b)
  assume "serial_inv w" then show ?thesis unfolding DataAvailable by (rule inv_data)
next
  case (Stopped opus now date u)
  assume "starts_call e \<Longrightarrow> pending w = []"
  then have "pending w = []" using Stopped by simp
  then show ?thesis unfolding Stopped by (rule inv_stopped)
next
  case (Settled i fetched)
  assume "serial_inv w" then show ?thesis unfolding Settled by (rule inv_settled)
next
  case RetryClicked
  assume "starts_call e \<Longrightarrow> pending w = []" and inv: "serial_inv w"
  then have "pending w = []" using RetryClicked by simp
  then show ?thesis unfolding RetryClicked using inv by (rule inv_retry)
qed

lemma inv_run: "serial_inv w \<Longrightarrow> serial es w \<Longrightarrow> serial_inv (run es w)"
proof (induction es arbitrary: w)
  case Nil
  then show ?case by simp
next
  case (Cons e es)
  have "serial_inv (step e w)"
    using Cons.prems by (intro inv_step) (simp_all split: if_splits)
  moreover have "serial es (step e w)" using Cons.prems by simp
  ultimately show ?case using Cons.IH by simp
qed

lemma inv_init: "serial_inv init_world"
  by (simp add: serial_inv_def init_world_def initial_def)

lemma serial_retry:
  "serial es init_world \<Longrightarrow> retry_visible (sess (run es init_world)) \<Longrightarrow>
   map_option id_rec (lastRecording (sess (run es init_world))) = lastFailed (run es init_world)"
proof -
  assume "serial es init_world" and v: "retry_visible (sess (run es init_world))"
  then have "serial_inv (run es init_world)" by (intro inv_run inv_init)
  moreover have "transcriptionError (sess (run es init_world)) \<noteq> None"
    using v by (auto simp: retry_visible_def split: option.splits)
  ultimately show ?thesis by (simp add: serial_inv_def last_id_def)
qed

lemma types_step:
  "\<forall>r \<in> set (recordings (sess w)). type (blob r) \<noteq> '''' \<Longrightarrow>
   \<forall>r \<in> set (recordings (sess (step e w))). type (blob r) \<noteq> ''''"
proof (cases e)
  case (Settled i fetched)
  assume "\<forall>r \<in> set (recordings (sess w)). type (blob r) \<noteq> ''''"
  then show ?thesis
    unfolding Settled by (auto simp: transcribeAudio_settle_def split: sum.splits)
next
  case RetryClicked
  assume "\<forall>r \<in> set (recordings (sess w)). type (blob r) \<noteq> ''''"
  then show ?thesis
    unfolding RetryClicked
    by (auto simp: retry_onClick_def retryTranscription_def transcribeAudio_begin_def Let_def
        split: option.splits)
next
  case (Stopped opus now date u)
  assume "\<forall>r \<in> set (recordings (sess w)). type (blob r) \<noteq> ''''"
  then show ?thesis
    unfolding Stopped
    by (auto simp: onstop_def transcribeAudio_begin_def Let_def mimeType_of_def)
qed (auto simp: handleMicClick_def startRecording_def stopRecording_def ondataavailable_def)

lemma types_run:
  "\<forall>r \<in> set (recordings (sess w)). type (blob r) \<noteq> '''' \<Longrightarrow>
   \<forall>r \<in> set (recordings (sess (run es w))). type (blob r) \<noteq> ''''"
proof (induction es arbitrary: w)
  case Nil
  then show ?case by simp
next
  case (Cons e es)
  have "\<forall>r \<in> set (recordings (sess (step e w))). type (blob r) \<noteq> ''''"
    using Cons.prems by (rule types_step)
  then show ?case using Cons.IH by simp
qed

lemma lastRecording_mem: "lastRecording s = Some r \<Longrightarrow> r \<in> set (recordings s)"
  by (auto simp: lastRecording_def split: if_splits)

text \<open>
  C2, as the code has it. The Retry button calls \<^verbatim>\<open>transcribeAudio\<close> for the last
  recording of the list, with its stored blob, its id, and its stored mime type (or
  \<^verbatim>\<open>audio/webm\<close> if that type were empty, which never happens for a recording made by
  the component); with no recording it calls nothing. Along a serial run, when the
  button is visible, the last recording is the one whose transcription failed last.
\<close>

theorem retry_targets_last_recording:
  "(lastRecording s = None \<longrightarrow> retry_onClick s = (s, None)) \<and>
   (lastRecording s = Some r \<longrightarrow>
      retry_onClick s =
        (transcribeAudio_begin s,
         Some (blob r, if type (blob r) \<noteq> '''' then type (blob r) else ''audio/webm'', id_rec r))) \<and>
   (lastRecording (sess (run es init_world)) = Some r \<longrightarrow>
      snd (retry_onClick (sess (run es init_world))) = Some (blob r, type (blob r), id_rec r)) \<and>
   (serial es init_world \<and> retry_visible (sess (run es init_world)) \<longrightarrow>
      map_option id_rec (lastRecording (sess (run es init_world))) = lastFailed (run es init_world))"
proof (intro conjI impI)
  assume "lastRecording s = None"
  then show "retry_onClick s = (s, None)" by (simp add: retry_onClick_def)
next
  assume "lastRecording s = Some r"
  then show "retry_onClick s =
        (transcribeAudio_begin s,
         Some (blob r, if type (blob r) \<noteq> '''' then type (blob r) else ''audio/webm'', id_rec r))"
    by (simp add: retry_onClick_def retryTranscription_def)
next
  assume l: "lastRecording (sess (run es init_world)) = Some r"
  have "\<forall>r \<in> set (recordings (sess (run es init_world))). type (blob r) \<noteq> ''''"
    by (rule types_run) (simp add: init_world_def initial_def)
  then have "type (blob r) \<noteq> ''''" using lastRecording_mem [OF l] by blast
  then show "snd (retry_onClick (sess (run es init_world))) = Some (blob r, type (blob r), id_rec r)"
    using l by (simp add: retry_onClick_def retryTranscription_def)
next
  assume "serial es init_world \<and> retry_visible (sess (run es init_world))"
  then show "map_option id_rec (lastRecording (sess (run es init_world))) = lastFailed (run es init_world)"
    by (intro serial_retry) simp_all
qed

lemmas run_defs = init_world_def initial_def handleMicClick_def
      startRecording_def stopRecording_def ondataavailable_def onstop_def size_of_def
      transcribeAudio_begin_def transcribeAudio_settle_def received_def mimeType_of_def
      string_of_time_a string_of_time_b Let_def reply_ok_def ok_def

lemma failing_run_result:
  "run failing_run init_world =
     \<lparr>sess = initial\<lparr>hasPermission := Some True, mediaRecorder := True,
         audioChunks := [\<lparr>bytes = [1, 2, 3], type = ''audio/webm;codecs=opus''\<rparr>],
         recordings := [rec_a], transcriptionError := Some ''Failed to fetch''\<rparr>,
      pending = [], lastFailed = Some ''1700000000000''\<rparr>"
  by (simp add: failing_run_def run_defs rec_a_def)

lemma overlapping_run_result:
  "run overlapping_run init_world =
     \<lparr>sess = initial\<lparr>hasPermission := Some True, mediaRecorder := True,
         audioChunks := [\<lparr>bytes = [1, 2, 3], type = ''audio/webm;codecs=opus''\<rparr>,
                         \<lparr>bytes = [4, 5], type = ''audio/webm;codecs=opus''\<rparr>],
         recordings := [rec_a,
            \<lparr>id_rec = ''1700000005000'', url = ''blob:b'',
             blob = \<lparr>bytes = [1, 2, 3, 4, 5], type = ''audio/webm;codecs=opus''\<rparr>,
             timestamp = 1700000005000, transcription = Some ''hello''\<rparr>],
         transcriptionError := Some ''Failed to fetch'',
         textarea := Some ''hello''\<rparr>,
      pending = [], lastFailed = Some ''1700000000000''\<rparr>"
  by (simp add: overlapping_run_def run_defs rec_a_def)

text \<open>
  The claim C2 as the specification states it fails when two requests overlap: the
  recording that failed last is the first one, and Retry transcribes the second one,
  which has its transcription already.
\<close>

theorem retry_not_last_failed_counterexample:
  "retry_visible (sess (run overlapping_run init_world)) \<and>
   lastFailed (run overlapping_run init_world) = Some ''1700000000000'' \<and>
   snd (retry_onClick (sess (run overlapping_run init_world))) =
     Some (\<lparr>bytes = [1, 2, 3, 4, 5], type = ''audio/webm;codecs=opus''\<rparr>,
           ''audio/webm;codecs=opus'', ''1700000005000'')"
  by (simp add: overlapping_run_result retry_visible_def retry_onClick_def lastRecording_def
      retryTranscription_def initial_def)

lemma serial_failing_run: "serial failing_run init_world"
  by (simp add: failing_run_def run_defs)

theorem retry_targets_last_recording_witness:
  "lastRecording initial = None \<and> retry_onClick initial = (initial, None) \<and>
   lastRecording two_recordings = Some rec_b \<and>
   retry_onClick two_recordings =
     (transcribeAudio_begin two_recordings, Some (blob rec_b, ''audio/webm'', ''1700000005000'')) \<and>
   lastRecording (sess (run failing_run init_world)) = Some rec_a \<and>
   snd (retry_onClick (sess (run failing_run init_world))) =
     Some (blob rec_a, ''audio/webm;codecs=opus'', ''1700000000000'') \<and>
   serial failing_run init_world \<and> retry_visible (sess (run failing_run init_world)) \<and>
   lastFailed (run failing_run init_world) = Some ''1700000000000''"
  using retry_targets_last_recording [of initial rec_b failing_run]
    retry_targets_last_recording [of two_recordings rec_b failing_run]
    retry_targets_last_recording [of two_recordings rec_a failing_run] serial_failing_run
  by (simp add: failing_run_result lastRecording_def retry_visible_def initial_def
      two_recordings_def rec_a_def rec_b_def)

end
